theory Spec2Isabelle
  imports Main "HOL-Library.Word"
begin

unbundle bit_operations_syntax

section \<open>Ray-Ban BLE emulator: the data model of \<open>ray_ban_ble_emulator.c\<close>\<close>

type_synonym uint8_t = "8 word"
type_synonym uint16_t = "16 word"

subsection \<open>Device profiles\<close>

record DeviceProfile =
  short_name :: string
  long_name :: string
  cid_str :: string
  cid_lo :: uint8_t
  cid_hi :: uint8_t

text \<open>
  The enum \<open>DeviceIndex\<close>. C enumerators are integers and the event loop does arithmetic
  on them, so the index is a number; every value the program computes stays below
  \<open>DeviceCount\<close> (lemma \<open>run_loop_app_inv\<close> below), far from any wrap-around.
\<close>

type_synonym DeviceIndex = nat

definition DeviceMeta2 :: DeviceIndex where "DeviceMeta2 = 0"
definition DeviceMeta1 :: DeviceIndex where "DeviceMeta1 = 1"
definition DeviceLuxottica :: DeviceIndex where "DeviceLuxottica = 2"
definition DeviceSnap :: DeviceIndex where "DeviceSnap = 3"
definition DeviceCount :: DeviceIndex where "DeviceCount = 4"

definition kDevices :: "DeviceProfile list" where
  "kDevices =
    [\<lparr>short_name = ''Meta Tech'', long_name = ''Meta Platforms Tech'',
      cid_str = ''0x058E'', cid_lo = 0x8E, cid_hi = 0x05\<rparr>,
     \<lparr>short_name = ''Meta Inc.'', long_name = ''Meta Platforms, Inc.'',
      cid_str = ''0x01AB'', cid_lo = 0xAB, cid_hi = 0x01\<rparr>,
     \<lparr>short_name = ''Luxottica'', long_name = ''EssilorLuxottica'',
      cid_str = ''0x0D53'', cid_lo = 0x53, cid_hi = 0x0D\<rparr>,
     \<lparr>short_name = ''Snap Spectacles'', long_name = ''Snapchat, Inc.'',
      cid_str = ''0x03C2'', cid_lo = 0xC2, cid_hi = 0x03\<rparr>]"

text \<open>
  Reading \<open>kDevices[i]\<close>. Outside the table the C program has undefined behaviour; the
  model makes that an error value.
\<close>

datatype error = IndexOutOfBounds

definition kDevices_at :: "DeviceIndex \<Rightarrow> error + DeviceProfile" where
  "kDevices_at i = (if i < length kDevices then Inr (kDevices ! i) else Inl IndexOutOfBounds)"

text \<open>
  The 16-bit Company ID that the two bytes of a profile stand for (\<open>cid_lo\<close> is the low
  byte, \<open>cid_hi\<close> the high byte, as the comments of the struct say).
\<close>

definition companyId :: "DeviceProfile \<Rightarrow> uint16_t" where
  "companyId p = push_bit 8 (ucast (cid_hi p)) OR ucast (cid_lo p)"

text \<open>
  Modelled from the spec: the two size macros of the Extra Beacon API, whose header is
  not among the sources. The spec gives a legacy advertisement at most 31 bytes and the
  emulated address 6 bytes.
\<close>

definition EXTRA_BEACON_MAX_DATA_SIZE :: nat where "EXTRA_BEACON_MAX_DATA_SIZE = 31"
definition EXTRA_BEACON_MAC_ADDR_SIZE :: nat where "EXTRA_BEACON_MAC_ADDR_SIZE = 6"

definition kEmulatedMac :: "uint8_t list" where
  "kEmulatedMac = [0x5E, 0x9A, 0x3C, 0x1D, 0x87, 0x42]"

subsection \<open>Application state\<close>

datatype AppScreen = ScreenMenu | ScreenAdvertising

text \<open>
  The fields of \<open>App\<close> that the program computes with. The four handles (\<open>gui\<close>,
  \<open>view_port\<close>, \<open>event_queue\<close>, \<open>notification\<close>) are opaque pointers that are set once
  in \<open>app_alloc\<close>; what is done through them is recorded as effects.
\<close>

record App =
  screen :: AppScreen
  selected :: DeviceIndex
  advertising :: bool

subsection \<open>The platform: radio driver, notifications, GUI, input\<close>

text \<open>
  Modelled from the spec: the types of the platform that the source uses but does not
  declare (beacon configuration, notification sequences, records, input events). The
  constructors are the names the source uses, next to their siblings: the three
  primary advertising channels and all of them, public and random addresses, the input
  keys and the input event types. An input event carries a key and a type.
\<close>

datatype GapAdvChannelMap =
  GapAdvChannelMap37 | GapAdvChannelMap38 | GapAdvChannelMap39 | GapAdvChannelMapAll

datatype GapAdvPowerLevel = GapAdvPowerLevel_0dBm | GapAdvPowerLevel_6dBm

datatype GapAddressType = GapAddressTypePublic | GapAddressTypeRandom

record GapExtraBeaconConfig =
  min_adv_interval_ms :: uint16_t
  max_adv_interval_ms :: uint16_t
  adv_channel_map :: GapAdvChannelMap
  adv_power_level :: GapAdvPowerLevel
  address_type :: GapAddressType
  address :: "uint8_t list"

datatype NotificationSequence = sequence_blink_start_blue | sequence_blink_stop

datatype FuriRecord = RECORD_GUI | RECORD_NOTIFICATION

text \<open>
  Every call into the platform is an effect; a function of the program returns the list
  of effects it performs, in order. \<open>ExtraBeaconStart ok\<close> is the call of
  \<open>furi_hal_bt_extra_beacon_start\<close> together with the result the driver gave.
\<close>

datatype Effect =
    ExtraBeaconStop
  | ExtraBeaconSetData "uint8_t list"
  | ExtraBeaconSetConfig GapExtraBeaconConfig
  | ExtraBeaconStart bool
  | NotificationMessage NotificationSequence
  | FuriLogI string
  | ViewPortUpdate
  | MessageQueueAlloc nat
  | MessageQueueFree
  | RecordOpen FuriRecord
  | RecordClose FuriRecord
  | ViewPortAlloc
  | ViewPortDrawCallbackSet
  | ViewPortInputCallbackSet
  | ViewPortFree
  | GuiAddViewPort
  | GuiRemoveViewPort
  | Free

datatype InputType =
  InputTypePress | InputTypeRelease | InputTypeShort | InputTypeLong | InputTypeRepeat

datatype InputKey =
  InputKeyUp | InputKeyDown | InputKeyRight | InputKeyLeft | InputKeyOk | InputKeyBack

record InputEvent =
  key :: InputKey
  type :: InputType

section \<open>BLE advertisement helpers\<close>

text \<open>
  \<open>build_adv_data\<close> writes through the running index \<open>i\<close> (a \<open>uint8_t\<close>) into the
  caller's buffer and returns the number of bytes written.
\<close>

definition build_adv_data :: "DeviceProfile \<Rightarrow> uint8_t list \<Rightarrow> uint8_t list \<times> uint8_t" where
  "build_adv_data p out0 =
    (let i = (0 :: uint8_t);
         out = out0[unat i := 0x02]; i = i + 1;
         out = out[unat i := 0x01]; i = i + 1;
         out = out[unat i := 0x06]; i = i + 1;
         out = out[unat i := 0x05]; i = i + 1;
         out = out[unat i := 0xFF]; i = i + 1;
         out = out[unat i := cid_lo p]; i = i + 1;
         out = out[unat i := cid_hi p]; i = i + 1;
         out = out[unat i := 0x00]; i = i + 1;
         out = out[unat i := 0x00]; i = i + 1
     in (out, i))"

text \<open>
  \<open>ble_start\<close>. The argument \<open>ok\<close> is what \<open>furi_hal_bt_extra_beacon_start\<close> returns
  when it is called. The local buffer \<open>adv_data\<close> is not initialised in C; the model
  starts it with zeros, and only its first \<open>adv_len\<close> bytes, all written by
  \<open>build_adv_data\<close>, are handed to the driver.
\<close>

definition ble_start :: "bool \<Rightarrow> App \<Rightarrow> error + (App \<times> Effect list)" where
  "ble_start ok app =
    (case kDevices_at (selected app) of
       Inl e \<Rightarrow> Inl e
     | Inr p \<Rightarrow>
        (let (adv_data, adv_len) = build_adv_data p (replicate EXTRA_BEACON_MAX_DATA_SIZE 0);
             cfg = \<lparr>min_adv_interval_ms = 100,
                    max_adv_interval_ms = 200,
                    adv_channel_map = GapAdvChannelMapAll,
                    adv_power_level = GapAdvPowerLevel_6dBm,
                    address_type = GapAddressTypeRandom,
                    address = take EXTRA_BEACON_MAC_ADDR_SIZE kEmulatedMac\<rparr>
         in Inr (app\<lparr>advertising := ok\<rparr>,
                 [ExtraBeaconStop,
                  ExtraBeaconSetData (take (unat adv_len) adv_data),
                  ExtraBeaconSetConfig cfg,
                  ExtraBeaconStart ok,
                  FuriLogI (''BLE beacon '' @ (if ok then ''started'' else ''FAILED'') @
                            '' - '' @ long_name p @ '' ('' @ cid_str p @ '')'')]
                 @ (if ok then [NotificationMessage sequence_blink_start_blue] else []))))"

definition ble_stop :: "App \<Rightarrow> App \<times> Effect list" where
  "ble_stop app =
    (app\<lparr>advertising := False\<rparr>,
     [ExtraBeaconStop, NotificationMessage sequence_blink_stop, FuriLogI ''BLE beacon stopped''])"

section \<open>Application lifecycle\<close>

definition app_alloc :: "App \<times> Effect list" where
  "app_alloc =
    (\<lparr>screen = ScreenMenu, selected = DeviceMeta2, advertising = False\<rparr>,
     [MessageQueueAlloc 8, RecordOpen RECORD_NOTIFICATION, ViewPortAlloc,
      ViewPortDrawCallbackSet, ViewPortInputCallbackSet, RecordOpen RECORD_GUI,
      GuiAddViewPort])"

definition app_free :: "App \<Rightarrow> Effect list" where
  "app_free app =
    (if advertising app then snd (ble_stop app) else []) @
    [GuiRemoveViewPort, RecordClose RECORD_GUI, ViewPortFree,
     RecordClose RECORD_NOTIFICATION, MessageQueueFree, Free]"

section \<open>Entry point: the event loop\<close>

text \<open>
  What one iteration of the loop receives: the outcome of \<open>furi_message_queue_get\<close>
  (a timeout, or an event), and the answer the radio driver gives in this iteration
  if it is asked to start.
\<close>

datatype QueueResult = QueueTimeout | QueueEvent InputEvent

type_synonym LoopInput = "QueueResult \<times> bool"

text \<open>
  One iteration of \<open>while(running)\<close>: the new value of \<open>running\<close>, the new state and
  the effects.
\<close>

definition loop_body :: "LoopInput \<Rightarrow> App \<Rightarrow> error + (bool \<times> App \<times> Effect list)" where
  "loop_body inp app =
    (case fst inp of
       QueueTimeout \<Rightarrow> Inr (True, app, [ViewPortUpdate])
     | QueueEvent event \<Rightarrow>
        if type event \<noteq> InputTypePress \<and> type event \<noteq> InputTypeRepeat
        then Inr (True, app, [])
        else if screen app = ScreenMenu then
          (case key event of
             InputKeyUp \<Rightarrow>
               Inr (True,
                    app\<lparr>selected := (if selected app = 0 then DeviceCount - 1
                                      else selected app - 1)\<rparr>,
                    [ViewPortUpdate])
           | InputKeyDown \<Rightarrow>
               Inr (True, app\<lparr>selected := (selected app + 1) mod DeviceCount\<rparr>,
                    [ViewPortUpdate])
           | InputKeyOk \<Rightarrow>
               (case ble_start (snd inp) app of
                  Inl e \<Rightarrow> Inl e
                | Inr (app', tr) \<Rightarrow>
                    Inr (True,
                         (if advertising app' then app'\<lparr>screen := ScreenAdvertising\<rparr> else app'),
                         tr @ [ViewPortUpdate]))
           | InputKeyBack \<Rightarrow> Inr (False, app, [ViewPortUpdate])
           | _ \<Rightarrow> Inr (True, app, [ViewPortUpdate]))
        else if key event = InputKeyBack then
          (let (app', tr) = ble_stop app
           in Inr (True, app'\<lparr>screen := ScreenMenu\<rparr>, tr @ [ViewPortUpdate]))
        else Inr (True, app, [ViewPortUpdate]))"

text \<open>
  The loop over the inputs that arrive. It leaves when \<open>running\<close> becomes false; the
  flag of the result says whether the loop is still running when the inputs given are
  used up (the program then waits for the next one).
\<close>

fun run_loop :: "LoopInput list \<Rightarrow> App \<Rightarrow> error + (bool \<times> App \<times> Effect list)" where
  "run_loop [] app = Inr (True, app, [])"
| "run_loop (inp # inps) app =
    (case loop_body inp app of
       Inl e \<Rightarrow> Inl e
     | Inr (running, app', tr) \<Rightarrow>
        if running then
          (case run_loop inps app' of
             Inl e \<Rightarrow> Inl e
           | Inr (running', app'', tr') \<Rightarrow> Inr (running', app'', tr @ tr'))
        else Inr (False, app', tr))"

text \<open>
  \<open>ray_ban_ble_app\<close>: allocation, the loop, teardown. The result is the complete trace
  of effects and the return value 0 once the loop has been left, and \<open>None\<close> while the
  program is still in the loop after the inputs given.
\<close>

definition ray_ban_ble_app :: "LoopInput list \<Rightarrow> error + (Effect list \<times> int) option" where
  "ray_ban_ble_app inps =
    (let (app, tr0) = app_alloc
     in case run_loop inps app of
          Inl e \<Rightarrow> Inl e
        | Inr (running, app', tr) \<Rightarrow>
            if running then Inr None
            else Inr (Some (tr0 @ tr @ app_free app', 0)))"

section \<open>Notions used in the statements\<close>

text \<open>A key press delivered by the queue, with the radio's answer for this iteration.\<close>

definition press :: "InputKey \<Rightarrow> bool \<Rightarrow> LoopInput" where
  "press k ok = (QueueEvent \<lparr>key = k, type = InputTypePress\<rparr>, ok)"

text \<open>
  The invariant of the event loop: the index is inside the table, and the screen is
  \<open>ScreenAdvertising\<close> exactly when \<open>advertising\<close> is set.
\<close>

definition app_inv :: "App \<Rightarrow> bool" where
  "app_inv app \<longleftrightarrow>
     selected app < DeviceCount \<and> (screen app = ScreenAdvertising \<longleftrightarrow> advertising app)"

definition is_radio_call :: "Effect \<Rightarrow> bool" where
  "is_radio_call e =
     (case e of ExtraBeaconStop \<Rightarrow> True | ExtraBeaconSetData d \<Rightarrow> True
      | ExtraBeaconSetConfig c \<Rightarrow> True | ExtraBeaconStart ok \<Rightarrow> True | _ \<Rightarrow> False)"

text \<open>
  Reading a trace against the radio: a beacon is live from a successful start until the
  next stop request. \<open>reconfigured_live live tr\<close> says that somewhere in \<open>tr\<close>
  advertisement data or a configuration is loaded while a beacon is live, where
  \<open>live\<close> tells whether one is live before \<open>tr\<close>.
\<close>

fun reconfigured_live :: "bool \<Rightarrow> Effect list \<Rightarrow> bool" where
  "reconfigured_live live [] = False"
| "reconfigured_live live (ExtraBeaconStop # es) = reconfigured_live False es"
| "reconfigured_live live (ExtraBeaconStart ok # es) = reconfigured_live (live \<or> ok) es"
| "reconfigured_live live (ExtraBeaconSetData d # es) = (live \<or> reconfigured_live live es)"
| "reconfigured_live live (ExtraBeaconSetConfig c # es) = (live \<or> reconfigured_live live es)"
| "reconfigured_live live (e # es) = reconfigured_live live es"

text \<open>
  \<open>live_after live tr\<close>: whether a beacon is live after the trace \<open>tr\<close>, when
  \<open>live\<close> tells whether one is live before it.
\<close>

fun live_after :: "bool \<Rightarrow> Effect list \<Rightarrow> bool" where
  "live_after live [] = live"
| "live_after live (ExtraBeaconStop # es) = live_after False es"
| "live_after live (ExtraBeaconStart ok # es) = live_after (live \<or> ok) es"
| "live_after live (e # es) = live_after live es"

definition count_stops :: "Effect list \<Rightarrow> nat" where
  "count_stops tr = length (filter (\<lambda>e. e = ExtraBeaconStop) tr)"

section \<open>The device table and the advertisement payload\<close>

lemma kDevices_length: "length kDevices = DeviceCount"
  by (simp add: kDevices_def DeviceCount_def)

lemma kDevices_companyIds: "map companyId kDevices = [0x058E, 0x01AB, 0x0D53, 0x03C2]"
  by (simp add: kDevices_def companyId_def)

lemma kDevices_at_defined:
  "i < DeviceCount \<Longrightarrow> kDevices_at i = Inr (kDevices ! i)"
  by (simp add: kDevices_at_def kDevices_def DeviceCount_def)

lemma companyId_bytes:
  "ucast (companyId p) = cid_lo p \<and> ucast (drop_bit 8 (companyId p)) = cid_hi p"
  unfolding companyId_def
  apply (rule conjI)
   apply (rule bit_word_eqI)
   apply (auto simp add: bit_simps)
  apply (rule bit_word_eqI)
  apply (auto simp add: bit_simps dest: bit_imp_le_length)
  done

lemma nine_cells:
  assumes "9 \<le> length out"
  shows "\<exists>a0 a1 a2 a3 a4 a5 a6 a7 a8 rest.
           out = a0 # a1 # a2 # a3 # a4 # a5 # a6 # a7 # a8 # rest"
  using assms by (auto simp add: Suc_le_length_iff eval_nat_numeral)

lemma build_adv_data_prefix:
  assumes "9 \<le> length out"
  shows "snd (build_adv_data p out) = 9 \<and>
         take 9 (fst (build_adv_data p out)) =
           [0x02, 0x01, 0x06, 0x05, 0xFF, cid_lo p, cid_hi p, 0x00, 0x00] \<and>
         drop 9 (fst (build_adv_data p out)) = drop 9 out"
  using nine_cells [OF assms] by (elim exE) (simp add: build_adv_data_def Let_def)

text \<open>
  Claim C1. For every profile, and so for every profile of the table, \<open>build_adv_data\<close>
  returns 9, and the 9 bytes it has written are 02 01 06 05 FF, the low byte of the
  Company ID, its high byte, 00 00: the Flags element (length 2, type 0x01, value 0x06)
  and the Manufacturer Specific Data element (length 5, type 0xFF, the Company ID
  little-endian, two zero bytes).
\<close>

theorem build_adv_data_payload:
  assumes "length out = EXTRA_BEACON_MAX_DATA_SIZE"
  shows "snd (build_adv_data p out) = 9 \<and>
         take 9 (fst (build_adv_data p out)) =
           [0x02, 0x01, 0x06, 0x05, 0xFF,
            ucast (companyId p), ucast (drop_bit 8 (companyId p)), 0x00, 0x00] \<and>
         cid_lo p = ucast (companyId p) \<and> cid_hi p = ucast (drop_bit 8 (companyId p))"
proof -
  from assms have "9 \<le> length out"
    by (simp add: EXTRA_BEACON_MAX_DATA_SIZE_def)
  from build_adv_data_prefix [OF this, of p] companyId_bytes [of p]
  show ?thesis by simp
qed

theorem build_adv_data_payload_witness:
  "length (replicate 31 (0 :: uint8_t)) = EXTRA_BEACON_MAX_DATA_SIZE \<and>
   snd (build_adv_data (kDevices ! 3) (replicate 31 0)) = 9 \<and>
   take 9 (fst (build_adv_data (kDevices ! 3) (replicate 31 0))) =
     [0x02, 0x01, 0x06, 0x05, 0xFF, 0xC2, 0x03, 0x00, 0x00]"
proof -
  have len: "length (replicate 31 (0 :: uint8_t)) = EXTRA_BEACON_MAX_DATA_SIZE"
    by (simp add: EXTRA_BEACON_MAX_DATA_SIZE_def)
  have cid: "companyId (kDevices ! 3) = 0x03C2"
    by (simp add: kDevices_def companyId_def)
  from build_adv_data_payload [OF len, of "kDevices ! 3"] len cid
  show ?thesis by simp
qed

section \<open>The beacon controller\<close>

lemma ble_start_eq:
  assumes "selected app < DeviceCount"
  shows "ble_start ok app =
     Inr (app\<lparr>advertising := ok\<rparr>,
          [ExtraBeaconStop,
           ExtraBeaconSetData [0x02, 0x01, 0x06, 0x05, 0xFF, cid_lo (kDevices ! selected app),
                               cid_hi (kDevices ! selected app), 0x00, 0x00],
           ExtraBeaconSetConfig
             \<lparr>min_adv_interval_ms = 100, max_adv_interval_ms = 200,
              adv_channel_map = GapAdvChannelMapAll, adv_power_level = GapAdvPowerLevel_6dBm,
              address_type = GapAddressTypeRandom,
              address = [0x5E, 0x9A, 0x3C, 0x1D, 0x87, 0x42]\<rparr>,
           ExtraBeaconStart ok,
           FuriLogI (''BLE beacon '' @ (if ok then ''started'' else ''FAILED'') @ '' - '' @
                     long_name (kDevices ! selected app) @ '' ('' @
                     cid_str (kDevices ! selected app) @ '')'')]
          @ (if ok then [NotificationMessage sequence_blink_start_blue] else []))"
proof -
  have "9 \<le> length (replicate EXTRA_BEACON_MAX_DATA_SIZE (0::uint8_t))"
    by (simp add: EXTRA_BEACON_MAX_DATA_SIZE_def)
  from build_adv_data_prefix [OF this, of "kDevices ! selected app"] assms
  show ?thesis
    by (simp add: ble_start_def kDevices_at_defined EXTRA_BEACON_MAC_ADDR_SIZE_def
        kEmulatedMac_def split_beta)
qed

lemma ble_start_defined:
  assumes "selected app < DeviceCount"
  shows "\<exists>tr. ble_start ok app = Inr (app\<lparr>advertising := ok\<rparr>, tr)"
  by (simp add: ble_start_eq [OF assms])

lemma ble_start_trace:
  assumes "ble_start ok app = Inr (app', tr)"
  shows "\<exists>d c rest. tr = ExtraBeaconStop # ExtraBeaconSetData d # ExtraBeaconSetConfig c #
                       ExtraBeaconStart ok # rest \<and> filter is_radio_call rest = []"
  using assms
  by (auto simp add: ble_start_def is_radio_call_def split: sum.splits prod.splits)

lemma reconfigured_live_no_radio:
  "filter is_radio_call es = [] \<Longrightarrow> reconfigured_live live es = False"
proof (induction es)
  case Nil
  then show ?case by simp
next
  case (Cons e es)
  then show ?case by (cases e) (simp_all add: is_radio_call_def split: if_splits)
qed

lemma reconfigured_live_append_no_radio:
  "filter is_radio_call es = [] \<Longrightarrow>
   reconfigured_live live (es @ fs) = reconfigured_live live fs"
proof (induction es)
  case Nil
  then show ?case by simp
next
  case (Cons e es)
  then show ?case by (cases e) (simp_all add: is_radio_call_def split: if_splits)
qed

text \<open>
  Claim C3. Every \<open>ble_start\<close> asks the radio to stop first, then loads the data, then
  the configuration, then asks it to start, and calls the radio no more after that. So
  in two starts in a row, whether or not a beacon was live before and whatever the
  radio answers, nothing is loaded into a live beacon.
\<close>

theorem ble_start_stops_first:
  assumes "selected app < DeviceCount"
  shows "\<exists>app1 tr1 app2 tr2 d1 c1 rest1 d2 c2 rest2.
           ble_start ok1 app = Inr (app1, tr1) \<and>
           ble_start ok2 app1 = Inr (app2, tr2) \<and>
           tr1 = ExtraBeaconStop # ExtraBeaconSetData d1 # ExtraBeaconSetConfig c1 #
                 ExtraBeaconStart ok1 # rest1 \<and> filter is_radio_call rest1 = [] \<and>
           tr2 = ExtraBeaconStop # ExtraBeaconSetData d2 # ExtraBeaconSetConfig c2 #
                 ExtraBeaconStart ok2 # rest2 \<and> filter is_radio_call rest2 = [] \<and>
           \<not> reconfigured_live live (tr1 @ tr2)"
proof -
  from ble_start_defined [OF assms] obtain tr1
    where s1: "ble_start ok1 app = Inr (app\<lparr>advertising := ok1\<rparr>, tr1)" by blast
  have "selected (app\<lparr>advertising := ok1\<rparr>) < DeviceCount" using assms by simp
  from ble_start_defined [OF this] obtain tr2
    where s2: "ble_start ok2 (app\<lparr>advertising := ok1\<rparr>) =
                 Inr (app\<lparr>advertising := ok1, advertising := ok2\<rparr>, tr2)"
    by blast
  from ble_start_trace [OF s1] obtain d1 c1 rest1
    where t1: "tr1 = ExtraBeaconStop # ExtraBeaconSetData d1 # ExtraBeaconSetConfig c1 #
                 ExtraBeaconStart ok1 # rest1" and r1: "filter is_radio_call rest1 = []"
    by blast
  from ble_start_trace [OF s2] obtain d2 c2 rest2
    where t2: "tr2 = ExtraBeaconStop # ExtraBeaconSetData d2 # ExtraBeaconSetConfig c2 #
                 ExtraBeaconStart ok2 # rest2" and r2: "filter is_radio_call rest2 = []"
    by blast
  have "\<not> reconfigured_live live (tr1 @ tr2)"
    by (simp add: t1 t2 reconfigured_live_append_no_radio [OF r1]
        reconfigured_live_no_radio [OF r2])
  with s1 s2 t1 t2 r1 r2 show ?thesis by blast
qed

theorem ble_start_stops_first_witness:
  "selected (fst app_alloc) < DeviceCount \<and>
   (\<exists>app1 tr1 app2 tr2.
      ble_start True (fst app_alloc) = Inr (app1, tr1) \<and>
      ble_start True app1 = Inr (app2, tr2) \<and>
      hd tr1 = ExtraBeaconStop \<and> hd tr2 = ExtraBeaconStop \<and>
      \<not> reconfigured_live True (tr1 @ tr2))"
proof -
  have sel: "selected (fst app_alloc) < DeviceCount"
    by (simp add: app_alloc_def DeviceMeta2_def DeviceCount_def)
  from ble_start_stops_first [OF sel, of True True True] obtain app1 tr1 app2 tr2
    where "ble_start True (fst app_alloc) = Inr (app1, tr1)"
      and "ble_start True app1 = Inr (app2, tr2)"
      and "hd tr1 = ExtraBeaconStop" and "hd tr2 = ExtraBeaconStop"
      and "\<not> reconfigured_live True (tr1 @ tr2)"
    by force
  with sel show ?thesis by blast
qed

text \<open>
  Claim C7. \<open>ble_stop\<close> cannot fail and leaves \<open>advertising\<close> false in every state;
  when \<open>advertising\<close> is false already it does not change the state at all, and a
  second stop changes nothing after a first.
\<close>

theorem ble_stop_idempotent:
  "advertising (fst (ble_stop app)) = False \<and>
   (\<not> advertising app \<longrightarrow> fst (ble_stop app) = app) \<and>
   fst (ble_stop (fst (ble_stop app))) = fst (ble_stop app) \<and>
   screen (fst (ble_stop app)) = screen app \<and> selected (fst (ble_stop app)) = selected app"
  by (simp add: ble_stop_def)

theorem ble_stop_idempotent_witness:
  "\<not> advertising (fst app_alloc) \<and> fst (ble_stop (fst app_alloc)) = fst app_alloc \<and>
   advertising (fst (ble_stop \<lparr>screen = ScreenAdvertising, selected = 2, advertising = True\<rparr>))
     = False"
  using ble_stop_idempotent [of "fst app_alloc"]
    ble_stop_idempotent [of "\<lparr>screen = ScreenAdvertising, selected = 2, advertising = True\<rparr>"]
  by (simp add: app_alloc_def)

text \<open>
  Claim C8, as far as the code goes. The address that \<open>ble_start\<close> configures is
  \<open>kEmulatedMac\<close> with address type random, but no byte of it has its two top bits
  set: the first byte 0x5E and the last byte 0x42 both have the top bits 01.
\<close>

theorem kEmulatedMac_top_bits:
  "filter (\<lambda>b. b AND 0xC0 = 0xC0) kEmulatedMac = [] \<and>
   kEmulatedMac ! 0 AND 0xC0 = 0x40 \<and> kEmulatedMac ! 5 AND 0xC0 = 0x40 \<and>
   length kEmulatedMac = EXTRA_BEACON_MAC_ADDR_SIZE \<and>
   map_sum id (\<lambda>r. snd r ! 2) (ble_start True (fst app_alloc)) =
     Inr (ExtraBeaconSetConfig
            \<lparr>min_adv_interval_ms = 100, max_adv_interval_ms = 200,
             adv_channel_map = GapAdvChannelMapAll, adv_power_level = GapAdvPowerLevel_6dBm,
             address_type = GapAddressTypeRandom, address = kEmulatedMac\<rparr>)"
proof -
  have sel: "selected (fst app_alloc) < DeviceCount"
    by (simp add: app_alloc_def DeviceMeta2_def DeviceCount_def)
  show ?thesis
    by (simp add: ble_start_eq [OF sel] kEmulatedMac_def EXTRA_BEACON_MAC_ADDR_SIZE_def)
qed

section \<open>The event loop\<close>

lemma loop_body_up:
  assumes "screen app = ScreenMenu" and "t = InputTypePress \<or> t = InputTypeRepeat"
  shows "loop_body (QueueEvent \<lparr>key = InputKeyUp, type = t\<rparr>, ok) app =
           Inr (True, app\<lparr>selected := (if selected app = 0 then DeviceCount - 1
                                         else selected app - 1)\<rparr>, [ViewPortUpdate])"
  using assms by (auto simp add: loop_body_def)

lemma loop_body_down:
  assumes "screen app = ScreenMenu" and "t = InputTypePress \<or> t = InputTypeRepeat"
  shows "loop_body (QueueEvent \<lparr>key = InputKeyDown, type = t\<rparr>, ok) app =
           Inr (True, app\<lparr>selected := (selected app + 1) mod DeviceCount\<rparr>, [ViewPortUpdate])"
  using assms by (auto simp add: loop_body_def)

lemma loop_body_defined:
  assumes "app_inv app"
  shows "\<exists>r app' tr. loop_body inp app = Inr (r, app', tr) \<and> app_inv app'"
proof -
  from assms have sel: "selected app < DeviceCount" by (simp add: app_inv_def)
  from ble_start_defined [OF sel] obtain tr
    where s: "ble_start (snd inp) app = Inr (app\<lparr>advertising := snd inp\<rparr>, tr)" by blast
  show ?thesis
  proof (cases "fst inp")
    case QueueTimeout
    with assms show ?thesis by (auto simp add: loop_body_def)
  next
    case (QueueEvent event)
    with assms s show ?thesis
      by (cases "key event")
         (auto simp add: loop_body_def app_inv_def ble_stop_def DeviceCount_def)
  qed
qed

lemma run_loop_defined:
  "app_inv app \<Longrightarrow> \<exists>r app' tr. run_loop inps app = Inr (r, app', tr) \<and> app_inv app'"
proof (induction inps arbitrary: app)
  case Nil
  then show ?case by auto
next
  case (Cons inp inps)
  from loop_body_defined [OF Cons.prems] obtain r app1 tr1
    where b: "loop_body inp app = Inr (r, app1, tr1)" and i: "app_inv app1" by blast
  show ?case
  proof (cases r)
    case True
    from Cons.IH [OF i] obtain r' app' tr'
      where "run_loop inps app1 = Inr (r', app', tr')" and "app_inv app'" by blast
    with b True show ?thesis by auto
  next
    case False
    with b i show ?thesis by auto
  qed
qed

lemma run_loop_app_inv:
  assumes "app_inv app" and "run_loop inps app = Inr (r, app', tr)"
  shows "app_inv app'"
  using run_loop_defined [OF assms(1), of inps] assms(2) by auto

lemma app_alloc_inv: "app_inv (fst app_alloc)"
  by (simp add: app_inv_def app_alloc_def DeviceMeta2_def DeviceCount_def)

text \<open>
  Claim C10. An event that is neither a press nor a repeat changes nothing: the loop
  goes on with the same state and performs no effect at all, so no radio call and no
  redraw.
\<close>

theorem non_press_ignored:
  assumes "type event \<noteq> InputTypePress" and "type event \<noteq> InputTypeRepeat"
  shows "loop_body (QueueEvent event, ok) app = Inr (True, app, [])"
  using assms by (simp add: loop_body_def)

theorem non_press_ignored_witness:
  "type \<lparr>key = InputKeyOk, type = InputTypeRelease\<rparr> \<noteq> InputTypePress \<and>
   type \<lparr>key = InputKeyOk, type = InputTypeRelease\<rparr> \<noteq> InputTypeRepeat \<and>
   loop_body (QueueEvent \<lparr>key = InputKeyOk, type = InputTypeRelease\<rparr>, True) (fst app_alloc) =
     Inr (True, fst app_alloc, []) \<and>
   loop_body (QueueEvent \<lparr>key = InputKeyBack, type = InputTypeLong\<rparr>, True)
       \<lparr>screen = ScreenAdvertising, selected = 2, advertising = True\<rparr> =
     Inr (True, \<lparr>screen = ScreenAdvertising, selected = 2, advertising = True\<rparr>, [])"
proof -
  have r1: "type \<lparr>key = InputKeyOk, type = InputTypeRelease\<rparr> \<noteq> InputTypePress"
    and r2: "type \<lparr>key = InputKeyOk, type = InputTypeRelease\<rparr> \<noteq> InputTypeRepeat"
    and l1: "type \<lparr>key = InputKeyBack, type = InputTypeLong\<rparr> \<noteq> InputTypePress"
    and l2: "type \<lparr>key = InputKeyBack, type = InputTypeLong\<rparr> \<noteq> InputTypeRepeat"
    by simp_all
  from non_press_ignored [OF r1 r2] non_press_ignored [OF l1 l2] r1 r2
  show ?thesis by blast
qed

text \<open>
  Claim C4. In the menu, a press (or repeat) of Ok calls \<open>ble_start\<close>, whose start
  request gets the driver's answer \<open>ok\<close>; the screen becomes \<open>ScreenAdvertising\<close> if
  and only if \<open>ok\<close> is true, and when it is false the screen is still \<open>ScreenMenu\<close>
  and \<open>advertising\<close> is false.
\<close>

theorem confirm_iff_start_ok:
  assumes "screen app = ScreenMenu" and "selected app < DeviceCount"
    and "key event = InputKeyOk"
    and "type event = InputTypePress \<or> type event = InputTypeRepeat"
  shows "\<exists>app' tr. loop_body (QueueEvent event, ok) app = Inr (True, app', tr) \<and>
           ExtraBeaconStart ok \<in> set tr \<and>
           (screen app' = ScreenAdvertising \<longleftrightarrow> ok) \<and>
           (\<not> ok \<longrightarrow> screen app' = ScreenMenu \<and> advertising app' = False) \<and>
           advertising app' = ok \<and> selected app' = selected app"
proof -
  from ble_start_defined [OF assms(2)] obtain tr
    where s: "ble_start ok app = Inr (app\<lparr>advertising := ok\<rparr>, tr)" by blast
  from ble_start_trace [OF s] have "ExtraBeaconStart ok \<in> set tr" by auto
  with s assms show ?thesis
    by (auto simp add: loop_body_def)
qed

theorem confirm_iff_start_ok_witness:
  "(\<exists>app' tr. loop_body (press InputKeyOk True) (fst app_alloc) = Inr (True, app', tr) \<and>
      screen app' = ScreenAdvertising \<and> advertising app') \<and>
   (\<exists>app' tr. loop_body (press InputKeyOk False) (fst app_alloc) = Inr (True, app', tr) \<and>
      screen app' = ScreenMenu \<and> \<not> advertising app')"
proof -
  have menu: "screen (fst app_alloc) = ScreenMenu"
    by (simp add: app_alloc_def)
  have sel: "selected (fst app_alloc) < DeviceCount"
    by (simp add: app_alloc_def DeviceMeta2_def DeviceCount_def)
  have k: "key \<lparr>key = InputKeyOk, type = InputTypePress\<rparr> = InputKeyOk"
    by simp
  have t: "type \<lparr>key = InputKeyOk, type = InputTypePress\<rparr> = InputTypePress \<or>
           type \<lparr>key = InputKeyOk, type = InputTypePress\<rparr> = InputTypeRepeat"
    by simp
  from confirm_iff_start_ok [OF menu sel k t, of True]
    confirm_iff_start_ok [OF menu sel k t, of False]
  show ?thesis unfolding press_def by fastforce
qed

lemma index_cases:
  "n < DeviceCount \<Longrightarrow> n = 0 \<or> n = 1 \<or> n = 2 \<or> n = 3"
  unfolding DeviceCount_def by arith

lemma up_is_pred_mod:
  assumes "n < DeviceCount"
  shows "(if n = 0 then DeviceCount - 1 else n - 1) = (n + DeviceCount - 1) mod DeviceCount"
  using index_cases [OF assms] by (elim disjE) (simp_all add: DeviceCount_def)

lemma up_then_down:
  assumes "n < DeviceCount"
  shows "((if n = 0 then DeviceCount - 1 else n - 1) + 1) mod DeviceCount = n"
  using index_cases [OF assms] by (elim disjE) (simp_all add: DeviceCount_def)

lemma down_then_up:
  assumes "n < DeviceCount"
  shows "(if (n + 1) mod DeviceCount = 0 then DeviceCount - 1
          else (n + 1) mod DeviceCount - 1) = n"
  using index_cases [OF assms] by (elim disjE) (simp_all add: DeviceCount_def)

text \<open>
  Claim C6. In the menu, with the index inside the table, a press (or repeat) of Up
  moves the index to its predecessor modulo \<open>DeviceCount\<close> and Down to its successor
  modulo \<open>DeviceCount\<close>: Up from 0 gives \<open>DeviceCount - 1\<close>, Down from
  \<open>DeviceCount - 1\<close> gives 0, and Up then Down, or Down then Up, gives back the state
  they started from.
\<close>

theorem menu_selection_cycles:
  assumes menu: "screen app = ScreenMenu" and sel: "selected app < DeviceCount"
    and t: "t = InputTypePress \<or> t = InputTypeRepeat"
    and up: "up = (QueueEvent \<lparr>key = InputKeyUp, type = t\<rparr>, ok)"
    and down: "down = (QueueEvent \<lparr>key = InputKeyDown, type = t\<rparr>, ok')"
  shows "loop_body up app =
           Inr (True, app\<lparr>selected := (selected app + DeviceCount - 1) mod DeviceCount\<rparr>,
                [ViewPortUpdate]) \<and>
         loop_body down app =
           Inr (True, app\<lparr>selected := (selected app + 1) mod DeviceCount\<rparr>, [ViewPortUpdate]) \<and>
         (selected app = 0 \<longrightarrow>
            loop_body up app = Inr (True, app\<lparr>selected := DeviceCount - 1\<rparr>, [ViewPortUpdate])) \<and>
         (selected app = DeviceCount - 1 \<longrightarrow>
            loop_body down app = Inr (True, app\<lparr>selected := 0\<rparr>, [ViewPortUpdate])) \<and>
         run_loop [up, down] app = Inr (True, app, [ViewPortUpdate, ViewPortUpdate]) \<and>
         run_loop [down, up] app = Inr (True, app, [ViewPortUpdate, ViewPortUpdate])"
proof -
  define m where "m = (selected app + 1) mod DeviceCount"
  define k where "k = (if selected app = 0 then DeviceCount - 1 else selected app - 1)"
  have u: "loop_body up app = Inr (True, app\<lparr>selected := k\<rparr>, [ViewPortUpdate])"
    unfolding up k_def by (rule loop_body_up [OF menu t])
  have d: "loop_body down app = Inr (True, app\<lparr>selected := m\<rparr>, [ViewPortUpdate])"
    unfolding down m_def by (rule loop_body_down [OF menu t])
  have mk: "(if m = 0 then DeviceCount - 1 else m - 1) = selected app"
    unfolding m_def by (rule down_then_up [OF sel])
  have "(k + 1) mod DeviceCount = selected app"
    unfolding k_def by (rule up_then_down [OF sel])
  then have km: "Suc k mod DeviceCount = selected app"
    by simp
  have "loop_body up (app\<lparr>selected := m\<rparr>) =
      Inr (True, app\<lparr>selected := m\<rparr>\<lparr>selected := (if m = 0 then DeviceCount - 1 else m - 1)\<rparr>,
           [ViewPortUpdate])"
    unfolding up using loop_body_up [of "app\<lparr>selected := m\<rparr>" t ok] menu t by simp
  then have u': "loop_body up (app\<lparr>selected := m\<rparr>) = Inr (True, app, [ViewPortUpdate])"
    by (simp add: mk)
  have "loop_body down (app\<lparr>selected := k\<rparr>) =
      Inr (True, app\<lparr>selected := k\<rparr>\<lparr>selected := (k + 1) mod DeviceCount\<rparr>, [ViewPortUpdate])"
    unfolding down using loop_body_down [of "app\<lparr>selected := k\<rparr>" t ok'] menu t by simp
  then have d': "loop_body down (app\<lparr>selected := k\<rparr>) = Inr (True, app, [ViewPortUpdate])"
    by (simp add: km)
  have c1: "loop_body up app =
           Inr (True, app\<lparr>selected := (selected app + DeviceCount - 1) mod DeviceCount\<rparr>,
                [ViewPortUpdate])"
    using u up_is_pred_mod [OF sel] by (simp add: k_def)
  have c2: "loop_body down app =
           Inr (True, app\<lparr>selected := (selected app + 1) mod DeviceCount\<rparr>, [ViewPortUpdate])"
    using d by (simp add: m_def)
  have c3: "selected app = 0 \<longrightarrow>
            loop_body up app = Inr (True, app\<lparr>selected := DeviceCount - 1\<rparr>, [ViewPortUpdate])"
    using u by (simp add: k_def)
  have c4: "selected app = DeviceCount - 1 \<longrightarrow>
            loop_body down app = Inr (True, app\<lparr>selected := 0\<rparr>, [ViewPortUpdate])"
    using d by (simp add: m_def DeviceCount_def)
  have c5: "run_loop [up, down] app = Inr (True, app, [ViewPortUpdate, ViewPortUpdate])"
    by (simp add: u d')
  have c6: "run_loop [down, up] app = Inr (True, app, [ViewPortUpdate, ViewPortUpdate])"
    by (simp add: d u')
  from c1 c2 c3 c4 c5 c6 show ?thesis by blast
qed

theorem menu_selection_cycles_witness:
  "screen (fst app_alloc) = ScreenMenu \<and> selected (fst app_alloc) < DeviceCount \<and>
   selected (fst app_alloc) = 0 \<and>
   loop_body (press InputKeyUp True) (fst app_alloc) =
     Inr (True, \<lparr>screen = ScreenMenu, selected = 3, advertising = False\<rparr>, [ViewPortUpdate]) \<and>
   loop_body (press InputKeyDown True) \<lparr>screen = ScreenMenu, selected = 3, advertising = False\<rparr> =
     Inr (True, fst app_alloc, [ViewPortUpdate]) \<and>
   run_loop [press InputKeyUp True, press InputKeyDown True] (fst app_alloc) =
     Inr (True, fst app_alloc, [ViewPortUpdate, ViewPortUpdate])"
proof -
  have menu: "screen (fst app_alloc) = ScreenMenu"
    by (simp add: app_alloc_def)
  have sel: "selected (fst app_alloc) < DeviceCount"
    by (simp add: app_alloc_def DeviceMeta2_def DeviceCount_def)
  have down: "loop_body (press InputKeyDown True)
        \<lparr>screen = ScreenMenu, selected = 3, advertising = False\<rparr> =
      Inr (True, fst app_alloc, [ViewPortUpdate])"
    using menu_selection_cycles [of "\<lparr>screen = ScreenMenu, selected = 3, advertising = False\<rparr>"
      InputTypePress "press InputKeyUp True" True "press InputKeyDown True" True]
    by (simp add: press_def app_alloc_def DeviceMeta2_def DeviceCount_def)
  from menu_selection_cycles [OF menu sel, of InputTypePress "press InputKeyUp True" True
      "press InputKeyDown True" True] menu sel down
  show ?thesis
    by (simp add: press_def app_alloc_def DeviceMeta2_def DeviceCount_def)
qed

text \<open>
  Claim C9. The loop never reaches undefined behaviour from the state that \<open>app_alloc\<close>
  makes, and in every state it reaches, after any inputs and any answers of the radio,
  the screen is \<open>ScreenAdvertising\<close> only if \<open>advertising\<close> is true.
\<close>

theorem advertising_screen_implies_advertising:
  "\<exists>running app tr. run_loop inps (fst app_alloc) = Inr (running, app, tr) \<and>
     (screen app = ScreenAdvertising \<longrightarrow> advertising app)"
  using run_loop_defined [OF app_alloc_inv, of inps] by (auto simp add: app_inv_def)

theorem advertising_screen_implies_advertising_witness:
  "\<exists>running app tr. run_loop [press InputKeyOk True] (fst app_alloc) = Inr (running, app, tr) \<and>
     screen app = ScreenAdvertising \<and> advertising app"
proof -
  have sel: "selected \<lparr>screen = ScreenMenu, selected = DeviceMeta2, advertising = False\<rparr>
      < DeviceCount"
    by (simp add: DeviceMeta2_def DeviceCount_def)
  have "\<exists>tr. run_loop [press InputKeyOk True] (fst app_alloc) =
      Inr (True, \<lparr>screen = ScreenAdvertising, selected = DeviceMeta2, advertising = True\<rparr>, tr)"
    by (simp add: press_def loop_body_def app_alloc_def ble_start_eq [OF sel])
  with advertising_screen_implies_advertising [of "[press InputKeyOk True]"]
  show ?thesis by auto
qed

text \<open>
  Claim C2. From the state of \<open>app_alloc\<close>, Down, Down, Ok selects index 2, the
  Luxottica profile with Company ID 0x0D53; the data handed to the radio is
  02 01 06 05 FF 53 0D 00 00; with the radio's start succeeding the screen is
  \<open>ScreenAdvertising\<close>; a Back then stops the radio and leaves the screen
  \<open>ScreenMenu\<close> and \<open>advertising\<close> false.
\<close>

theorem luxottica_scenario:
  "run_loop [press InputKeyDown ok1, press InputKeyDown ok2, press InputKeyOk True] (fst app_alloc) =
     Inr (True, \<lparr>screen = ScreenAdvertising, selected = DeviceLuxottica, advertising = True\<rparr>,
          [ViewPortUpdate, ViewPortUpdate,
           ExtraBeaconStop,
           ExtraBeaconSetData [0x02, 0x01, 0x06, 0x05, 0xFF, 0x53, 0x0D, 0x00, 0x00],
           ExtraBeaconSetConfig
             \<lparr>min_adv_interval_ms = 100, max_adv_interval_ms = 200,
              adv_channel_map = GapAdvChannelMapAll, adv_power_level = GapAdvPowerLevel_6dBm,
              address_type = GapAddressTypeRandom,
              address = [0x5E, 0x9A, 0x3C, 0x1D, 0x87, 0x42]\<rparr>,
           ExtraBeaconStart True,
           FuriLogI ''BLE beacon started - EssilorLuxottica (0x0D53)'',
           NotificationMessage sequence_blink_start_blue,
           ViewPortUpdate]) \<and>
   map_sum id companyId (kDevices_at DeviceLuxottica) = Inr 0x0D53 \<and>
   run_loop [press InputKeyDown ok1, press InputKeyDown ok2, press InputKeyOk True,
             press InputKeyBack ok3] (fst app_alloc) =
     Inr (True, \<lparr>screen = ScreenMenu, selected = DeviceLuxottica, advertising = False\<rparr>,
          [ViewPortUpdate, ViewPortUpdate,
           ExtraBeaconStop,
           ExtraBeaconSetData [0x02, 0x01, 0x06, 0x05, 0xFF, 0x53, 0x0D, 0x00, 0x00],
           ExtraBeaconSetConfig
             \<lparr>min_adv_interval_ms = 100, max_adv_interval_ms = 200,
              adv_channel_map = GapAdvChannelMapAll, adv_power_level = GapAdvPowerLevel_6dBm,
              address_type = GapAddressTypeRandom,
              address = [0x5E, 0x9A, 0x3C, 0x1D, 0x87, 0x42]\<rparr>,
           ExtraBeaconStart True,
           FuriLogI ''BLE beacon started - EssilorLuxottica (0x0D53)'',
           NotificationMessage sequence_blink_start_blue,
           ViewPortUpdate,
           ExtraBeaconStop, NotificationMessage sequence_blink_stop,
           FuriLogI ''BLE beacon stopped'', ViewPortUpdate])"
proof -
  have sel: "selected \<lparr>screen = ScreenMenu, selected = 2, advertising = False\<rparr> < DeviceCount"
    by (simp add: DeviceCount_def)
  show ?thesis
    by (simp add: press_def loop_body_def app_alloc_def ble_start_eq [OF sel] ble_stop_def
        kDevices_at_def kDevices_def companyId_def
        DeviceMeta2_def DeviceLuxottica_def DeviceCount_def numeral_2_eq_2 [symmetric])
qed

section \<open>The whole run and its teardown\<close>

lemma live_after_append:
  "live_after live (es @ fs) = live_after (live_after live es) fs"
  by (induction live es rule: live_after.induct) simp_all

lemma ble_start_live:
  assumes "ble_start ok app = Inr (app', tr)"
  shows "live_after live tr = advertising app'"
  using assms
  by (cases ok) (auto simp add: ble_start_def split: sum.splits prod.splits)

lemma loop_body_live:
  assumes "loop_body inp app = Inr (r, app', tr)"
  shows "live_after (advertising app) tr = advertising app'"
proof (cases "fst inp")
  case QueueTimeout
  with assms show ?thesis by (auto simp add: loop_body_def)
next
  case (QueueEvent event)
  with assms show ?thesis
    by (cases "key event")
       (auto simp add: loop_body_def ble_stop_def live_after_append
          split: if_splits sum.splits dest: ble_start_live)
qed

lemma loop_body_exit:
  assumes "loop_body inp app = Inr (False, app', tr)"
  shows "app' = app \<and> screen app = ScreenMenu \<and> tr = [ViewPortUpdate]"
proof (cases "fst inp")
  case QueueTimeout
  with assms show ?thesis by (auto simp add: loop_body_def)
next
  case (QueueEvent event)
  with assms show ?thesis
    by (cases "key event")
       (auto simp add: loop_body_def ble_stop_def split: if_splits sum.splits)
qed

lemma run_loop_live:
  "run_loop inps app = Inr (r, app', tr) \<Longrightarrow>
   live_after (advertising app) tr = advertising app'"
proof (induction inps arbitrary: app r app' tr)
  case Nil
  then show ?case by simp
next
  case (Cons inp inps)
  from Cons.prems obtain r1 app1 tr1
    where b: "loop_body inp app = Inr (r1, app1, tr1)"
    by (auto split: sum.splits)
  note l1 = loop_body_live [OF b]
  show ?case
  proof (cases r1)
    case True
    with Cons.prems b obtain tr2
      where rest: "run_loop inps app1 = Inr (r, app', tr2)" and tr: "tr = tr1 @ tr2"
      by (auto split: sum.splits)
    from Cons.IH [OF rest] l1 show ?thesis
      by (simp add: tr live_after_append)
  next
    case False
    with Cons.prems b have "app' = app1" and "tr = tr1" by auto
    with l1 show ?thesis by simp
  qed
qed

lemma run_loop_exit_menu:
  "run_loop inps app = Inr (False, app', tr) \<Longrightarrow> screen app' = ScreenMenu"
proof (induction inps arbitrary: app tr)
  case Nil
  then show ?case by simp
next
  case (Cons inp inps)
  from Cons.prems obtain r1 app1 tr1
    where b: "loop_body inp app = Inr (r1, app1, tr1)"
    by (auto split: sum.splits)
  show ?case
  proof (cases r1)
    case True
    with Cons.prems b obtain tr2
      where "run_loop inps app1 = Inr (False, app', tr2)"
      by (auto split: sum.splits)
    from Cons.IH [OF this] show ?thesis .
  next
    case False
    with Cons.prems b have "app' = app1" by auto
    with loop_body_exit [of inp app app1 tr1] b False show ?thesis by simp
  qed
qed

lemma app_alloc_no_radio: "live_after live (snd app_alloc) = live"
  by (simp add: app_alloc_def)

lemma app_free_not_live: "live_after (advertising app) (app_free app) = False"
  by (simp add: app_free_def ble_stop_def)

text \<open>
  Claim C5 as stated fails: \<open>app_free\<close> stops the radio only under
  \<open>if(app->advertising)\<close>. Leaving from the menu, the one way out of the loop, tears
  down without any stop request.
\<close>

theorem app_free_no_stop_when_idle:
  "count_stops (app_free \<lparr>screen = ScreenMenu, selected = 0, advertising = False\<rparr>) = 0 \<and>
   ray_ban_ble_app [press InputKeyBack False] =
     Inr (Some ([MessageQueueAlloc 8, RecordOpen RECORD_NOTIFICATION, ViewPortAlloc,
                 ViewPortDrawCallbackSet, ViewPortInputCallbackSet, RecordOpen RECORD_GUI,
                 GuiAddViewPort, ViewPortUpdate,
                 GuiRemoveViewPort, RecordClose RECORD_GUI, ViewPortFree,
                 RecordClose RECORD_NOTIFICATION, MessageQueueFree, Free], 0))"
  by (simp add: ray_ban_ble_app_def press_def loop_body_def app_alloc_def app_free_def
      count_stops_def)

text \<open>
  Claim C5, amended. \<open>app_free\<close> asks the radio to stop exactly when \<open>advertising\<close> is
  set, then exactly once and before anything is torn down, and no beacon is live after
  it when the flag told the truth before it. In a run of the program the flag does:
  whenever \<open>ray_ban_ble_app\<close> returns, it has left the loop from the menu with
  \<open>advertising\<close> false and no beacon live, its teardown asks for no stop, and no
  beacon is live at the end of its trace: no advertisement outlives the process.
\<close>

theorem no_advertisement_outlives_process:
  "count_stops (app_free app) = (if advertising app then 1 else 0) \<and>
   (advertising app \<longrightarrow>
      app_free app = snd (ble_stop app) @
        [GuiRemoveViewPort, RecordClose RECORD_GUI, ViewPortFree,
         RecordClose RECORD_NOTIFICATION, MessageQueueFree, Free] \<and>
      hd (app_free app) = ExtraBeaconStop) \<and>
   \<not> live_after (advertising app) (app_free app) \<and>
   (ray_ban_ble_app inps = Inr (Some (tr, ret)) \<longrightarrow>
      ret = 0 \<and> \<not> live_after False tr \<and>
      (\<exists>app' tr'.
         run_loop inps (fst app_alloc) = Inr (False, app', tr') \<and>
         screen app' = ScreenMenu \<and> \<not> advertising app' \<and>
         \<not> live_after False (snd app_alloc @ tr') \<and>
         tr = snd app_alloc @ tr' @ app_free app' \<and>
         count_stops (app_free app') = 0))"
proof -
  have a: "count_stops (app_free app) = (if advertising app then 1 else 0)"
    by (simp add: app_free_def count_stops_def ble_stop_def)
  have b: "advertising app \<longrightarrow>
      app_free app = snd (ble_stop app) @
        [GuiRemoveViewPort, RecordClose RECORD_GUI, ViewPortFree,
         RecordClose RECORD_NOTIFICATION, MessageQueueFree, Free] \<and>
      hd (app_free app) = ExtraBeaconStop"
    by (simp add: app_free_def ble_stop_def)
  have c: "\<not> live_after (advertising app) (app_free app)"
    by (simp add: app_free_not_live)
  have d: "ret = 0 \<and> \<not> live_after False tr \<and>
      (\<exists>app' tr'.
         run_loop inps (fst app_alloc) = Inr (False, app', tr') \<and>
         screen app' = ScreenMenu \<and> \<not> advertising app' \<and>
         \<not> live_after False (snd app_alloc @ tr') \<and>
         tr = snd app_alloc @ tr' @ app_free app' \<and>
         count_stops (app_free app') = 0)"
    if run: "ray_ban_ble_app inps = Inr (Some (tr, ret))"
  proof -
    from run obtain app' tr'
      where loop: "run_loop inps (fst app_alloc) = Inr (False, app', tr')"
        and tr: "tr = snd app_alloc @ tr' @ app_free app'" and ret: "ret = 0"
      by (auto simp add: ray_ban_ble_app_def split_beta split: sum.splits if_splits)
    have menu: "screen app' = ScreenMenu"
      by (rule run_loop_exit_menu [OF loop])
    from run_loop_app_inv [OF app_alloc_inv loop] menu
    have idle: "\<not> advertising app'"
      by (auto simp add: app_inv_def)
    have "advertising (fst app_alloc) = False"
      by (simp add: app_alloc_def)
    with run_loop_live [OF loop] idle have quiet: "\<not> live_after False tr'"
      by simp
    then have q1: "\<not> live_after False (snd app_alloc @ tr')"
      by (simp add: live_after_append app_alloc_no_radio)
    have "live_after False tr = live_after (advertising app') (app_free app')"
      using quiet idle by (simp add: tr live_after_append app_alloc_no_radio)
    then have q2: "\<not> live_after False tr"
      by (simp add: app_free_not_live)
    from idle have "count_stops (app_free app') = 0"
      by (simp add: app_free_def count_stops_def)
    with loop menu idle q1 q2 tr ret show ?thesis by blast
  qed
  from a b c d show ?thesis by blast
qed

theorem no_advertisement_outlives_process_witness:
  "ray_ban_ble_app [press InputKeyOk True, press InputKeyBack False, press InputKeyBack False] =
     Inr (Some ([MessageQueueAlloc 8, RecordOpen RECORD_NOTIFICATION, ViewPortAlloc,
                 ViewPortDrawCallbackSet, ViewPortInputCallbackSet, RecordOpen RECORD_GUI,
                 GuiAddViewPort,
                 ExtraBeaconStop,
                 ExtraBeaconSetData [0x02, 0x01, 0x06, 0x05, 0xFF, 0x8E, 0x05, 0x00, 0x00],
                 ExtraBeaconSetConfig
                   \<lparr>min_adv_interval_ms = 100, max_adv_interval_ms = 200,
                    adv_channel_map = GapAdvChannelMapAll,
                    adv_power_level = GapAdvPowerLevel_6dBm,
                    address_type = GapAddressTypeRandom,
                    address = [0x5E, 0x9A, 0x3C, 0x1D, 0x87, 0x42]\<rparr>,
                 ExtraBeaconStart True,
                 FuriLogI ''BLE beacon started - Meta Platforms Tech (0x058E)'',
                 NotificationMessage sequence_blink_start_blue,
                 ViewPortUpdate,
                 ExtraBeaconStop, NotificationMessage sequence_blink_stop,
                 FuriLogI ''BLE beacon stopped'', ViewPortUpdate,
                 ViewPortUpdate,
                 GuiRemoveViewPort, RecordClose RECORD_GUI, ViewPortFree,
                 RecordClose RECORD_NOTIFICATION, MessageQueueFree, Free], 0)) \<and>
   \<not> live_after False
       (fst (the (projr (ray_ban_ble_app
          [press InputKeyOk True, press InputKeyBack False, press InputKeyBack False])))) \<and>
   advertising \<lparr>screen = ScreenAdvertising, selected = 2, advertising = True\<rparr> \<and>
   count_stops (app_free \<lparr>screen = ScreenAdvertising, selected = 2, advertising = True\<rparr>) = 1 \<and>
   hd (app_free \<lparr>screen = ScreenAdvertising, selected = 2, advertising = True\<rparr>) =
     ExtraBeaconStop"
proof -
  have sel: "selected \<lparr>screen = ScreenMenu, selected = 0, advertising = False\<rparr> < DeviceCount"
    by (simp add: DeviceCount_def)
  have run: "ray_ban_ble_app
      [press InputKeyOk True, press InputKeyBack False, press InputKeyBack False] =
     Inr (Some ([MessageQueueAlloc 8, RecordOpen RECORD_NOTIFICATION, ViewPortAlloc,
                 ViewPortDrawCallbackSet, ViewPortInputCallbackSet, RecordOpen RECORD_GUI,
                 GuiAddViewPort,
                 ExtraBeaconStop,
                 ExtraBeaconSetData [0x02, 0x01, 0x06, 0x05, 0xFF, 0x8E, 0x05, 0x00, 0x00],
                 ExtraBeaconSetConfig
                   \<lparr>min_adv_interval_ms = 100, max_adv_interval_ms = 200,
                    adv_channel_map = GapAdvChannelMapAll,
                    adv_power_level = GapAdvPowerLevel_6dBm,
                    address_type = GapAddressTypeRandom,
                    address = [0x5E, 0x9A, 0x3C, 0x1D, 0x87, 0x42]\<rparr>,
                 ExtraBeaconStart True,
                 FuriLogI ''BLE beacon started - Meta Platforms Tech (0x058E)'',
                 NotificationMessage sequence_blink_start_blue,
                 ViewPortUpdate,
                 ExtraBeaconStop, NotificationMessage sequence_blink_stop,
                 FuriLogI ''BLE beacon stopped'', ViewPortUpdate,
                 ViewPortUpdate,
                 GuiRemoveViewPort, RecordClose RECORD_GUI, ViewPortFree,
                 RecordClose RECORD_NOTIFICATION, MessageQueueFree, Free], 0))"
    by (simp add: ray_ban_ble_app_def press_def loop_body_def app_alloc_def app_free_def
        ble_start_eq [OF sel] ble_stop_def kDevices_def DeviceMeta2_def)
  have adv: "advertising \<lparr>screen = ScreenAdvertising, selected = 2, advertising = True\<rparr>"
    by simp
  from no_advertisement_outlives_process
    [of "\<lparr>screen = ScreenAdvertising, selected = 2, advertising = True\<rparr>"
        "[press InputKeyOk True, press InputKeyBack False, press InputKeyBack False]",
     unfolded run] adv run
  show ?thesis
    by (simp add: app_free_def ble_stop_def count_stops_def)
qed

end
